theory Spec2Isabelle
  imports Main "HOL-Library.Sublist"
begin

section \<open>JavaScript values used by the sources\<close>

text \<open>
  \<^verbatim>\<open>process.env\<close> maps a variable name to a string, or to \<^verbatim>\<open>undefined\<close> when the
  variable is unset.
\<close>

type_synonym env = "string \<Rightarrow> string option"

text \<open>
  Truthiness of a value of type \<^verbatim>\<open>string | undefined\<close>: \<^verbatim>\<open>undefined\<close> and the empty
  string are falsy, every other string is truthy.
\<close>

definition truthy :: "string option \<Rightarrow> bool" where
  "truthy v = (case v of None \<Rightarrow> False | Some s \<Rightarrow> s \<noteq> [])"

text \<open>The expression \<^verbatim>\<open>v || d\<close> for \<^verbatim>\<open>v : string | undefined\<close> and a string \<^verbatim>\<open>d\<close>.\<close>

definition or_else :: "string option \<Rightarrow> string \<Rightarrow> string" where
  "or_else v d = (case v of None \<Rightarrow> d | Some s \<Rightarrow> if s \<noteq> [] then s else d)"

text \<open>A value of type \<^verbatim>\<open>string | null | undefined\<close>.\<close>

datatype js_string = Undefined | Null | Str string

section \<open>src/middleware.ts: the request-interception hook\<close>

text \<open>
  A \<^verbatim>\<open>NextRequest\<close> carries its absolute URL as a string; every other attribute
  (method, headers, cookies, body) lives in the extension part of the record.
\<close>

record nextRequest =
  url :: string

text \<open>The object literal handed to \<^verbatim>\<open>getToken\<close>.\<close>

record 'r getToken_params =
  req :: 'r
  secret :: "string option"

text \<open>
  The two responses the hook builds: \<^verbatim>\<open>NextResponse.redirect(u)\<close> and
  \<^verbatim>\<open>NextResponse.next()\<close>.
\<close>

datatype 'u nextResponse = NextResponse_redirect 'u | NextResponse_next

definition getToken_params :: "env \<Rightarrow> 'r \<Rightarrow> 'r getToken_params" where
  "getToken_params e request =
     \<lparr>req = request, getToken_params.secret = e ''NEXTAUTH_SECRET''\<rparr>"

text \<open>
  \<^verbatim>\<open>getToken\<close> (next-auth/jwt) and the \<^verbatim>\<open>URL\<close> constructor are library code; the hook
  is modelled over any pair of them. \<^verbatim>\<open>getToken\<close> resolves to a decoded token object or
  to \<^verbatim>\<open>null\<close>; a token object is always truthy, so \<^verbatim>\<open>!token\<close> holds exactly for
  \<^verbatim>\<open>null\<close>, here \<open>None\<close>.
\<close>

definition middleware ::
  "('a nextRequest_scheme getToken_params \<Rightarrow> 'j option) \<Rightarrow> (string \<Rightarrow> string \<Rightarrow> 'u) \<Rightarrow>
   env \<Rightarrow> 'a nextRequest_scheme \<Rightarrow> 'u nextResponse" where
  "middleware getToken new_URL e request =
     (let token = getToken (getToken_params e request) in
      if token = None then
        (let signInUrl = new_URL ''/api/auth/signin'' (url request) in
         NextResponse_redirect signInUrl)
      else NextResponse_next)"

section \<open>src/middleware.ts: the route-matching configuration\<close>

text \<open>
  The matcher \<^verbatim>\<open>'/((?!api|_next|static|.*\\..*|favicon.ico).*)'\<close> is a path pattern whose
  parenthesised part is a regular expression. The constructs it uses: a literal
  character, the wildcard \<^verbatim>\<open>.\<close> (any character but a line terminator), sequence,
  alternation \<^verbatim>\<open>|\<close>, iteration \<^verbatim>\<open>*\<close> and the negative lookahead \<^verbatim>\<open>(?!...)\<close>.
\<close>

datatype regex =
    Chr char
  | Dot
  | Eps
  | Seq regex regex
  | Alt regex regex
  | Star regex
  | NegLookahead regex

text \<open>Line feed and carriage return, the line terminators a \<open>char\<close> can hold.\<close>

definition lineTerminator :: "char \<Rightarrow> bool" where
  "lineTerminator c = (c = CHR 0x0A \<or> c = CHR 0x0D)"

text \<open>
  \<open>rems r s\<close> lists the remainders of \<open>s\<close> after every way of matching \<open>r\<close> at the
  start of \<open>s\<close>. An iteration repeats its body only while the body consumes input; the
  length of the input bounds the number of rounds.
\<close>

fun star_iter :: "(string \<Rightarrow> string list) \<Rightarrow> nat \<Rightarrow> string \<Rightarrow> string list" where
  "star_iter f 0 s = [s]"
| "star_iter f (Suc n) s =
     s # concat (map (star_iter f n) (filter (\<lambda>t. length t < length s) (f s)))"

primrec rems :: "regex \<Rightarrow> string \<Rightarrow> string list" where
  "rems (Chr c) s = (case s of [] \<Rightarrow> [] | x # xs \<Rightarrow> if x = c then [xs] else [])"
| "rems Dot s = (case s of [] \<Rightarrow> [] | x # xs \<Rightarrow> if lineTerminator x then [] else [xs])"
| "rems Eps s = [s]"
| "rems (Seq a b) s = concat (map (rems b) (rems a s))"
| "rems (Alt a b) s = rems a s @ rems b s"
| "rems (Star a) s = star_iter (rems a) (length s) s"
| "rems (NegLookahead a) s = (if rems a s = [] then [s] else [])"

text \<open>A pattern matches a path when some way of matching it consumes the whole path.\<close>

definition full_match :: "regex \<Rightarrow> string \<Rightarrow> bool" where
  "full_match r s = ([] \<in> set (rems r s))"

fun lit :: "string \<Rightarrow> regex" where
  "lit [] = Eps"
| "lit (c # cs) = Seq (Chr c) (lit cs)"

text \<open>The alternatives inside the lookahead, in the order of the source.\<close>

definition excluded :: regex where
  "excluded =
     Alt (lit ''api'')
      (Alt (lit ''_next'')
        (Alt (lit ''static'')
          (Alt (Seq (Star Dot) (Seq (Chr CHR ''.'') (Star Dot)))
               (Seq (lit ''favicon'') (Seq Dot (lit ''ico''))))))"

definition matcher_regex :: regex where
  "matcher_regex = Seq (Chr CHR ''/'') (Seq (NegLookahead excluded) (Star Dot))"

record config =
  matcher :: "regex list"

definition config :: config where
  "config = \<lparr>matcher = [matcher_regex]\<rparr>"

text \<open>The hook runs for a request path when one of the configured matchers matches it.\<close>

definition intercepted :: "string \<Rightarrow> bool" where
  "intercepted path = list_ex (\<lambda>r. full_match r path) (matcher config)"

text \<open>
  The set of paths as the specification words it: after the leading slash the path does
  not start with \<^verbatim>\<open>api\<close>, \<^verbatim>\<open>_next\<close> or \<^verbatim>\<open>static\<close>, contains no dot, and is not
  \<^verbatim>\<open>favicon.ico\<close>.
\<close>

definition spec_intercepted :: "string \<Rightarrow> bool" where
  "spec_intercepted path =
     (case path of
        [] \<Rightarrow> False
      | c # rest \<Rightarrow>
          c = CHR ''/'' \<and> \<not> prefix ''api'' rest \<and> \<not> prefix ''_next'' rest \<and>
          \<not> prefix ''static'' rest \<and> CHR ''.'' \<notin> set rest \<and> rest \<noteq> ''favicon.ico'')"

section \<open>The session and the token\<close>

text \<open>
  The session user carries the identifier this repository adds (\<^verbatim>\<open>id\<close>) and the name
  the profile view reads; \<^verbatim>\<open>email\<close> and \<^verbatim>\<open>image\<close> and anything else live in the
  extension part. At run time \<^verbatim>\<open>id\<close> is \<^verbatim>\<open>undefined\<close> until the callback sets it.
\<close>

record user =
  id' :: "string option"
  name :: js_string

record 'u session =
  user :: "'u option"
  expires :: string

record jwt =
  sub :: "string option"

section \<open>The provider configuration \<^verbatim>\<open>authOptions\<close>\<close>

text \<open>
  The \<^verbatim>\<open>session\<close> callback: \<^verbatim>\<open>if (session.user && token.sub) session.user.id = token.sub\<close>,
  then \<^verbatim>\<open>return session\<close>. A user object is truthy whenever it is there; the subject
  is truthy when it is a non-empty string.
\<close>

definition callbacks_session ::
  "('a user_scheme, 'b) session_scheme \<Rightarrow> 'c jwt_scheme \<Rightarrow> ('a user_scheme, 'b) session_scheme"
  where
  "callbacks_session sess token =
     (case user sess of
        None \<Rightarrow> sess
      | Some u \<Rightarrow>
          if truthy (sub token) then sess\<lparr>user := Some (u\<lparr>id' := sub token\<rparr>)\<rparr> else sess)"

record azureADOptions =
  clientId :: string
  clientSecret :: string
  tenantId :: string

record theme =
  colorScheme :: string
  logo :: string

record ('s, 't) callbacks =
  session :: "'s \<Rightarrow> 't \<Rightarrow> 's"

record ('p, 'c) nextAuthOptions =
  providers :: "'p list"
  callbacks :: 'c
  secret :: "string option"
  theme :: theme

text \<open>\<^verbatim>\<open>AzureADProvider\<close> is the library's provider constructor, a parameter here.\<close>

definition authOptions ::
  "(azureADOptions \<Rightarrow> 'p) \<Rightarrow> env \<Rightarrow>
   ('p, (('a user_scheme, 'b) session_scheme, 'c jwt_scheme) callbacks) nextAuthOptions" where
  "authOptions AzureADProvider e =
     \<lparr>providers =
        [AzureADProvider
           \<lparr>clientId = or_else (e ''AZURE_AD_CLIENT_ID'') '''',
            clientSecret = or_else (e ''AZURE_AD_CLIENT_SECRET'') '''',
            tenantId = or_else (e ''AZURE_AD_TENANT_ID'') ''''\<rparr>],
      callbacks = \<lparr>callbacks.session = callbacks_session\<rparr>,
      nextAuthOptions.secret = e ''NEXTAUTH_SECRET'',
      theme = \<lparr>colorScheme = ''light'', logo = ''/next.svg''\<rparr>\<rparr>"

text \<open>
  \<^verbatim>\<open>getSession\<close> awaits \<^verbatim>\<open>getServerSession(authOptions)\<close> and returns its value. The
  library call is a parameter; it acts on a world \<open>'w\<close> and yields a result \<open>'r\<close>
  (a session, \<^verbatim>\<open>null\<close>, or a rejection).
\<close>

definition getSession ::
  "(('p, (('a user_scheme, 'b) session_scheme, 'c jwt_scheme) callbacks) nextAuthOptions
      \<Rightarrow> 'w \<Rightarrow> 'r \<times> 'w) \<Rightarrow>
   (azureADOptions \<Rightarrow> 'p) \<Rightarrow> env \<Rightarrow> 'w \<Rightarrow> 'r \<times> 'w" where
  "getSession getServerSession AzureADProvider e world =
     getServerSession (authOptions AzureADProvider e) world"

section \<open>src/components/UserProfile.tsx\<close>

text \<open>What \<^verbatim>\<open>useSession()\<close> hands to the component.\<close>

datatype status = Loading | Authenticated | Unauthenticated

record 's sessionContext =
  data :: "'s option"
  status :: status

text \<open>
  A rendered element: a tag and its children, each a piece of literal text or the
  value of an embedded expression.
\<close>

datatype jsx_child = JsxText string | JsxExpr js_string

datatype jsx = Jsx string "jsx_child list"

text \<open>The optional chain \<^verbatim>\<open>session.user?.name\<close>.\<close>

definition user_name :: "('a user_scheme, 'b) session_scheme \<Rightarrow> js_string" where
  "user_name sess = (case user sess of None \<Rightarrow> Undefined | Some u \<Rightarrow> name u)"

definition UserProfile :: "('a user_scheme, 'b) session_scheme sessionContext \<Rightarrow> jsx" where
  "UserProfile useSession =
     (if status useSession = Loading then Jsx ''p'' [JsxText ''Loading...'']
      else case data useSession of
        None \<Rightarrow> Jsx ''p'' [JsxText ''You are not logged in.'']
      | Some sess \<Rightarrow> Jsx ''div'' [JsxText ''Welcome, '', JsxExpr (user_name sess), JsxText ''!''])"

text \<open>
  The text a browser shows for an element: literal text as it is, a string value as it
  is, nothing for \<^verbatim>\<open>null\<close> and \<^verbatim>\<open>undefined\<close>.
\<close>

fun child_text :: "jsx_child \<Rightarrow> string" where
  "child_text (JsxText s) = s"
| "child_text (JsxExpr (Str s)) = s"
| "child_text (JsxExpr Null) = []"
| "child_text (JsxExpr Undefined) = []"

fun textContent :: "jsx \<Rightarrow> string" where
  "textContent (Jsx tag children) = concat (map child_text children)"

section \<open>Auxiliary facts\<close>


subsection \<open>What the matcher's regular expression accepts\<close>

lemma rems_lit: "rems (lit w) s = (if prefix w s then [drop (length w) s] else [])"
  by (induction w arbitrary: s) (auto split: list.splits)

lemma star_iter_self: "s \<in> set (star_iter f n s)"
  by (cases n) simp_all

text \<open>
  The iteration \<^verbatim>\<open>.*\<close> can stop after any prefix that is free of line terminators.
\<close>

lemma star_iter_Dot:
  "length s \<le> n \<Longrightarrow>
   set (star_iter (rems Dot) n s) = {t. \<exists>p. s = p @ t \<and> (\<forall>c\<in>set p. \<not> lineTerminator c)}"
proof (induction n arbitrary: s)
  case 0
  then show ?case by simp
next
  case (Suc n)
  show ?case
  proof (cases s)
    case Nil
    then show ?thesis by simp
  next
    case (Cons x xs)
    with Suc.prems have len: "length xs \<le> n" by simp
    show ?thesis
    proof (cases "lineTerminator x")
      case True
      have "\<And>p t. x # xs = p @ t \<Longrightarrow> \<forall>c\<in>set p. \<not> lineTerminator c \<Longrightarrow> p = []"
        using True by (metis append_Cons list.exhaust list.inject list.set_intros(1))
      with True Cons show ?thesis by auto
    next
      case False
      have "set (star_iter (rems Dot) (Suc n) s) = insert s (set (star_iter (rems Dot) n xs))"
        using False Cons by simp
      also have "\<dots> = insert s {t. \<exists>p. xs = p @ t \<and> (\<forall>c\<in>set p. \<not> lineTerminator c)}"
        by (simp only: Suc.IH [OF len])
      also have "\<dots> = {t. \<exists>p. s = p @ t \<and> (\<forall>c\<in>set p. \<not> lineTerminator c)}"
      proof (rule set_eqI, rule iffI)
        fix t assume "t \<in> insert s {t. \<exists>p. xs = p @ t \<and> (\<forall>c\<in>set p. \<not> lineTerminator c)}"
        then consider "t = s" | p where "xs = p @ t" "\<forall>c\<in>set p. \<not> lineTerminator c" by auto
        then show "t \<in> {t. \<exists>p. s = p @ t \<and> (\<forall>c\<in>set p. \<not> lineTerminator c)}"
        proof cases
          case 1
          then show ?thesis by simp
        next
          case 2
          then have "s = (x # p) @ t \<and> (\<forall>c\<in>set (x # p). \<not> lineTerminator c)"
            using Cons False by simp
          then show ?thesis by blast
        qed
      next
        fix t assume "t \<in> {t. \<exists>p. s = p @ t \<and> (\<forall>c\<in>set p. \<not> lineTerminator c)}"
        then obtain p where p: "s = p @ t" "\<forall>c\<in>set p. \<not> lineTerminator c" by auto
        show "t \<in> insert s {t. \<exists>p. xs = p @ t \<and> (\<forall>c\<in>set p. \<not> lineTerminator c)}"
        proof (cases p)
          case Nil
          with p show ?thesis by simp
        next
          case (Cons y ys)
          with p \<open>s = x # xs\<close> have "xs = ys @ t" "\<forall>c\<in>set ys. \<not> lineTerminator c" by auto
          then show ?thesis by blast
        qed
      qed
      finally show ?thesis .
    qed
  qed
qed

lemma rems_Star_Dot:
  "set (rems (Star Dot) s) = {t. \<exists>p. s = p @ t \<and> (\<forall>c\<in>set p. \<not> lineTerminator c)}"
  by (simp add: star_iter_Dot)

lemma full_Star_Dot: "([] \<in> set (rems (Star Dot) s)) = (\<forall>c\<in>set s. \<not> lineTerminator c)"
  unfolding rems_Star_Dot by auto

lemma rems_Star_Dot_nonempty: "rems (Star Dot) s \<noteq> []"
  using star_iter_self [of s "rems Dot" "length s"] by auto

lemma rems_Chr_Star_Dot: "(rems (Seq (Chr d) (Star Dot)) t = []) = (\<forall>u. t \<noteq> d # u)"
  using rems_Star_Dot_nonempty by (cases t) auto

text \<open>The alternative \<^verbatim>\<open>.*\..*\<close> of the lookahead, for any character in place of the dot.\<close>

lemma rems_contains:
  "(rems (Seq (Star Dot) (Seq (Chr d) (Star Dot))) s = [])
     = (\<forall>p u. s = p @ d # u \<longrightarrow> (\<exists>c\<in>set p. lineTerminator c))"
proof -
  have "(rems (Seq (Star Dot) (Seq (Chr d) (Star Dot))) s = [])
      = (\<forall>t\<in>set (rems (Star Dot) s). rems (Seq (Chr d) (Star Dot)) t = [])"
    by simp
  also have "\<dots> = (\<forall>t. (\<exists>p. s = p @ t \<and> (\<forall>c\<in>set p. \<not> lineTerminator c)) \<longrightarrow> (\<forall>u. t \<noteq> d # u))"
    unfolding rems_Star_Dot rems_Chr_Star_Dot by simp
  also have "\<dots> = (\<forall>p u. s = p @ d # u \<longrightarrow> (\<exists>c\<in>set p. lineTerminator c))"
    by blast
  finally show ?thesis .
qed

lemma rems_contains_clean:
  assumes "\<forall>c\<in>set s. \<not> lineTerminator c"
  shows "(rems (Seq (Star Dot) (Seq (Chr d) (Star Dot))) s = []) = (d \<notin> set s)"
proof -
  have "(\<forall>p u. s = p @ d # u \<longrightarrow> (\<exists>c\<in>set p. lineTerminator c)) = (d \<notin> set s)"
  proof
    assume h: "\<forall>p u. s = p @ d # u \<longrightarrow> (\<exists>c\<in>set p. lineTerminator c)"
    show "d \<notin> set s"
    proof
      assume "d \<in> set s"
      then obtain p u where s: "s = p @ d # u" by (meson split_list)
      with h obtain c where "c \<in> set p" "lineTerminator c" by blast
      with s assms show False by auto
    qed
  next
    assume "d \<notin> set s"
    then show "\<forall>p u. s = p @ d # u \<longrightarrow> (\<exists>c\<in>set p. lineTerminator c)" by auto
  qed
  then show ?thesis by (simp only: rems_contains)
qed

text \<open>The alternative \<^verbatim>\<open>favicon.ico\<close>: two literals around one wildcard.\<close>

lemma rems_wild:
  "(rems (Seq (lit v) (Seq Dot (lit w))) s = [])
     = (\<forall>c. \<not> lineTerminator c \<longrightarrow> \<not> prefix (v @ c # w) s)"
proof (cases "prefix v s")
  case False
  then have "\<And>c. \<not> prefix (v @ c # w) s" by (meson append_prefixD)
  with False show ?thesis by (simp add: rems_lit)
next
  case True
  then obtain t where s: "s = v @ t" by (auto simp: prefix_def)
  show ?thesis
  proof (cases t)
    case Nil
    with s show ?thesis by (simp add: rems_lit)
  next
    case (Cons x xs)
    with s show ?thesis by (auto simp: rems_lit)
  qed
qed

text \<open>
  The paths the configured matcher accepts, in closed form: a slash, then a rest free of
  line terminators that starts with none of \<^verbatim>\<open>api\<close>, \<^verbatim>\<open>_next\<close>, \<^verbatim>\<open>static\<close>, holds no dot,
  and does not start with \<^verbatim>\<open>favicon\<close>, one more character, \<^verbatim>\<open>ico\<close>.
\<close>

lemma intercepted_iff:
  "intercepted path =
     (\<exists>rest. path = CHR ''/'' # rest \<and> (\<forall>c\<in>set rest. \<not> lineTerminator c) \<and>
        \<not> prefix ''api'' rest \<and> \<not> prefix ''_next'' rest \<and> \<not> prefix ''static'' rest \<and>
        CHR ''.'' \<notin> set rest \<and> (\<forall>c. \<not> prefix (''favicon'' @ c # ''ico'') rest))"
proof (cases path)
  case Nil
  then show ?thesis
    by (simp add: intercepted_def config_def matcher_regex_def full_match_def)
next
  case (Cons x rest)
  have m: "intercepted path =
      (x = CHR ''/'' \<and> rems excluded rest = [] \<and> (\<forall>c\<in>set rest. \<not> lineTerminator c))"
    using Cons full_Star_Dot [of rest]
    by (auto simp add: intercepted_def config_def matcher_regex_def full_match_def
          simp del: rems.simps(6))
  have e: "(rems excluded rest = []) =
      (\<not> prefix ''api'' rest \<and> \<not> prefix ''_next'' rest \<and> \<not> prefix ''static'' rest \<and>
       CHR ''.'' \<notin> set rest \<and> (\<forall>c. \<not> prefix (''favicon'' @ c # ''ico'') rest))"
    if clean: "\<forall>c\<in>set rest. \<not> lineTerminator c"
  proof -
    have w: "(\<forall>c. \<not> lineTerminator c \<longrightarrow> \<not> prefix (''favicon'' @ c # ''ico'') rest)
        = (\<forall>c. \<not> prefix (''favicon'' @ c # ''ico'') rest)"
    proof
      assume h: "\<forall>c. \<not> lineTerminator c \<longrightarrow> \<not> prefix (''favicon'' @ c # ''ico'') rest"
      show "\<forall>c. \<not> prefix (''favicon'' @ c # ''ico'') rest"
      proof (rule allI, rule notI)
        fix c assume p: "prefix (''favicon'' @ c # ''ico'') rest"
        then have "c \<in> set rest" by (auto simp: prefix_def)
        with clean have "\<not> lineTerminator c" by blast
        with h p show False by blast
      qed
    qed blast
    have "(rems excluded rest = []) =
        (rems (lit ''api'') rest = [] \<and> rems (lit ''_next'') rest = [] \<and>
         rems (lit ''static'') rest = [] \<and>
         rems (Seq (Star Dot) (Seq (Chr CHR ''.'') (Star Dot))) rest = [] \<and>
         rems (Seq (lit ''favicon'') (Seq Dot (lit ''ico''))) rest = [])"
      unfolding excluded_def by (simp only: rems.simps(5) append_is_Nil_conv)
    also have "\<dots> = (\<not> prefix ''api'' rest \<and> \<not> prefix ''_next'' rest \<and> \<not> prefix ''static'' rest \<and>
        CHR ''.'' \<notin> set rest \<and> (\<forall>c. \<not> prefix (''favicon'' @ c # ''ico'') rest))"
      by (simp only: rems_lit rems_contains_clean [OF clean] rems_wild w) simp
    finally show ?thesis .
  qed
  show ?thesis using m e Cons by auto
qed

text \<open>
  Against the set the specification describes, the matcher leaves out only the paths with
  a line terminator and those that start with \<^verbatim>\<open>/favicon\<close>, one more character, \<^verbatim>\<open>ico\<close>.
\<close>

lemma intercepted_spec_gap:
  "intercepted path =
     (spec_intercepted path \<and> (\<forall>c\<in>set path. \<not> lineTerminator c) \<and>
      (\<forall>c. \<not> prefix (''/favicon'' @ c # ''ico'') path))"
proof (cases path)
  case Nil
  then show ?thesis by (simp add: intercepted_iff spec_intercepted_def)
next
  case (Cons x rest)
  have "CHR ''.'' \<notin> set rest \<Longrightarrow> rest \<noteq> ''favicon.ico''" by auto
  moreover have "\<not> lineTerminator CHR ''/''" by (simp add: lineTerminator_def)
  ultimately show ?thesis
    using Cons by (auto simp add: intercepted_iff spec_intercepted_def)
qed

section \<open>The interception hook\<close>

text \<open>
  C1. For every request the hook answers with the redirect to \<^verbatim>\<open>/api/auth/signin\<close>,
  resolved against the request's URL, exactly when \<^verbatim>\<open>getToken\<close> yields no token; it
  answers \<^verbatim>\<open>NextResponse.next()\<close> exactly when a token is present, and it redirects
  anywhere at all only without a token.
\<close>

theorem middleware_redirect_iff_no_token:
  "(middleware getToken new_URL e request
      = NextResponse_redirect (new_URL ''/api/auth/signin'' (url request)))
     = (getToken (getToken_params e request) = None)
   \<and> (middleware getToken new_URL e request = NextResponse_next)
     = (getToken (getToken_params e request) \<noteq> None)
   \<and> (\<exists>u. middleware getToken new_URL e request = NextResponse_redirect u)
     = (getToken (getToken_params e request) = None)"
  by (simp add: middleware_def Let_def)

text \<open>
  One request without a token and one with a token, the URL constructor standing in as
  concatenation of base and path.
\<close>

theorem middleware_redirect_iff_no_token_witness:
  "middleware (\<lambda>p. (None :: unit option)) (\<lambda>p b. b @ p) (\<lambda>k. None)
      \<lparr>url = ''https://app.example''\<rparr>
     = NextResponse_redirect ''https://app.example/api/auth/signin''
   \<and> middleware (\<lambda>p. Some ()) (\<lambda>p b. b @ p) (\<lambda>k. None) \<lparr>url = ''https://app.example''\<rparr>
     = NextResponse_next"
  using middleware_redirect_iff_no_token
          [of "\<lambda>p. (None :: unit option)" "\<lambda>p b. b @ p" "\<lambda>k. None"
              "\<lparr>url = ''https://app.example''\<rparr>"]
        middleware_redirect_iff_no_token
          [of "\<lambda>p. Some ()" "\<lambda>p b. b @ p" "\<lambda>k. None" "\<lparr>url = ''https://app.example''\<rparr>"]
  by simp

text \<open>
  C7. The hook's response is a function of the request's URL and of whether \<^verbatim>\<open>getToken\<close>
  returns a token, and of nothing else: two runs on requests with the same URL and the
  same token presence give the same response, whatever the other attributes of the two
  requests, the two environments and the two token lookups are.
\<close>

theorem middleware_deterministic:
  assumes "url request = url request'"
    and "(getToken (getToken_params e request) = None)
           = (getToken' (getToken_params e' request') = None)"
  shows "middleware getToken new_URL e request = middleware getToken' new_URL e' request'"
  using assms by (simp add: middleware_def Let_def)

text \<open>
  Two requests to one URL that differ in method, cookies, environment and token value.
\<close>

theorem middleware_deterministic_witness:
  "middleware (\<lambda>p. Some (1::nat)) (\<lambda>p b. b @ p) (\<lambda>k. None)
      \<lparr>url = ''https://app.example/a'', \<dots> = ''GET''\<rparr>
   = middleware (\<lambda>p. Some ''jwt'') (\<lambda>p b. b @ p) [''NEXTAUTH_SECRET'' \<mapsto> ''s3cret'']
      \<lparr>url = ''https://app.example/a'', \<dots> = (''POST'', [(''cookie'', ''x=1'')])\<rparr>"
  by (rule middleware_deterministic) simp_all

section \<open>The route matcher\<close>

text \<open>
  C3. The matcher is meant to accept exactly the paths that, after the leading slash, do
  not start with \<^verbatim>\<open>api\<close>, \<^verbatim>\<open>_next\<close> or \<^verbatim>\<open>static\<close>, hold no dot and are not
  \<^verbatim>\<open>favicon.ico\<close>, so that every page path is intercepted. The page path
  \<^verbatim>\<open>/favicon-icons\<close> is in that set, and the configured matcher rejects it: the dot of
  \<^verbatim>\<open>favicon.ico\<close> is not escaped and stands for any character, and the alternative is
  tested at the start of the path only.
\<close>

theorem matcher_misses_favicon_like_page:
  "intercepted ''/favicon-icons'' = False \<and> spec_intercepted ''/favicon-icons'' = True"
  by (simp add: intercepted_def config_def matcher_regex_def excluded_def full_match_def
        lineTerminator_def spec_intercepted_def)

section \<open>The session callback\<close>

text \<open>
  C2, as amended. For every session and token such that \<^verbatim>\<open>session.user\<close> is present and
  \<^verbatim>\<open>token.sub\<close> is present and not the empty string, the session the callback returns
  has \<^verbatim>\<open>session.user.id\<close> equal to \<^verbatim>\<open>token.sub\<close>.
\<close>

theorem callbacks_session_sets_id:
  assumes "user sess = Some u" and "sub token = Some s" and "s \<noteq> []"
  shows "map_option id' (user (callbacks_session sess token)) = Some (sub token)"
  using assms by (simp add: callbacks_session_def truthy_def)

theorem callbacks_session_sets_id_witness:
  "map_option id'
     (user (callbacks_session
        \<lparr>user = Some \<lparr>id' = None, name = Str ''Ada''\<rparr>, expires = ''2030-01-01T00:00:00.000Z''\<rparr>
        \<lparr>sub = Some ''u-42''\<rparr>))
   = Some (Some ''u-42'')"
  using callbacks_session_sets_id
    [of "\<lparr>user = Some \<lparr>id' = None, name = Str ''Ada''\<rparr>, expires = ''2030-01-01T00:00:00.000Z''\<rparr>"
        "\<lparr>id' = None, name = Str ''Ada''\<rparr>" "\<lparr>sub = Some ''u-42''\<rparr>" "''u-42''"]
  by simp

text \<open>
  C2 as first stated asks only for a subject that is present. A token whose subject is the
  empty string has one, the guard \<^verbatim>\<open>session.user && token.sub\<close> is falsy for it, and the
  user identifier stays \<^verbatim>\<open>undefined\<close>.
\<close>

theorem callbacks_session_empty_sub_counterexample:
  "user \<lparr>user = Some \<lparr>id' = None, name = Str ''Ada''\<rparr>, expires = ''2030-01-01T00:00:00.000Z''\<rparr>
     \<noteq> None
   \<and> sub \<lparr>sub = Some ''''\<rparr> \<noteq> None
   \<and> map_option id'
       (user (callbacks_session
          \<lparr>user = Some \<lparr>id' = None, name = Str ''Ada''\<rparr>, expires = ''2030-01-01T00:00:00.000Z''\<rparr>
          \<lparr>sub = Some ''''\<rparr>))
     \<noteq> Some (sub \<lparr>sub = Some ''''\<rparr>)"
  by (simp add: callbacks_session_def truthy_def)

text \<open>
  C8. Every field of the returned session other than \<^verbatim>\<open>user.id\<close> equals the field of the
  input session: the expiry, every further session field, and the user with its identifier
  blanked out. When \<^verbatim>\<open>session.user\<close> is absent or \<^verbatim>\<open>token.sub\<close> is absent the callback
  returns the input session as it is; the same holds for an empty subject.
\<close>

theorem callbacks_session_frame:
  "expires (callbacks_session sess token) = expires sess
   \<and> session.more (callbacks_session sess token) = session.more sess
   \<and> map_option (\<lambda>u. u\<lparr>id' := None\<rparr>) (user (callbacks_session sess token))
       = map_option (\<lambda>u. u\<lparr>id' := None\<rparr>) (user sess)
   \<and> (user sess = None \<or> sub token = None \<longrightarrow> callbacks_session sess token = sess)
   \<and> (sub token = Some [] \<longrightarrow> callbacks_session sess token = sess)"
  by (auto simp add: callbacks_session_def truthy_def split: option.splits)

theorem callbacks_session_frame_witness:
  "callbacks_session \<lparr>user = None, expires = ''2030''\<rparr> \<lparr>sub = Some ''u-42''\<rparr>
     = \<lparr>user = (None :: user option), expires = ''2030''\<rparr>
   \<and> callbacks_session \<lparr>user = Some \<lparr>id' = Some ''old'', name = Null\<rparr>, expires = ''2030''\<rparr>
        \<lparr>sub = None\<rparr>
     = \<lparr>user = Some \<lparr>id' = Some ''old'', name = Null\<rparr>, expires = ''2030''\<rparr>"
  using callbacks_session_frame
          [of "\<lparr>user = (None :: user option), expires = ''2030''\<rparr>" "\<lparr>sub = Some ''u-42''\<rparr>"]
        callbacks_session_frame
          [of "\<lparr>user = Some \<lparr>id' = Some ''old'', name = Null\<rparr>, expires = ''2030''\<rparr>"
              "\<lparr>sub = None\<rparr>"]
  by simp

section \<open>The provider configuration and the session helper\<close>

text \<open>
  C5. \<^verbatim>\<open>getSession\<close> is a call-through: in every world its result and the world it leaves
  behind are those of \<^verbatim>\<open>getServerSession(authOptions)\<close>.
\<close>

theorem getSession_call_through:
  "getSession getServerSession AzureADProvider e world
     = getServerSession (authOptions AzureADProvider e) world"
  by (simp add: getSession_def)




text \<open>
  C9. Whatever the environment, the provider configuration is built: the options hold one
  provider, made from the three variables, and each of the three that is unset
  contributes the empty string.
\<close>

theorem authOptions_unset_variables:
  "providers (authOptions AzureADProvider e)
     = [AzureADProvider
          \<lparr>clientId = or_else (e ''AZURE_AD_CLIENT_ID'') '''',
           clientSecret = or_else (e ''AZURE_AD_CLIENT_SECRET'') '''',
           tenantId = or_else (e ''AZURE_AD_TENANT_ID'') ''''\<rparr>]
   \<and> (e ''AZURE_AD_CLIENT_ID'' = None \<longrightarrow> or_else (e ''AZURE_AD_CLIENT_ID'') '''' = '''')
   \<and> (e ''AZURE_AD_CLIENT_SECRET'' = None \<longrightarrow> or_else (e ''AZURE_AD_CLIENT_SECRET'') '''' = '''')
   \<and> (e ''AZURE_AD_TENANT_ID'' = None \<longrightarrow> or_else (e ''AZURE_AD_TENANT_ID'') '''' = '''')"
  by (simp add: authOptions_def or_else_def)

text \<open>An environment with the tenant identifier only.\<close>

theorem authOptions_unset_variables_witness:
  "providers (authOptions (\<lambda>opts. opts) [''AZURE_AD_TENANT_ID'' \<mapsto> ''t-1''])
     = [\<lparr>clientId = '''', clientSecret = '''', tenantId = ''t-1''\<rparr>]"
  using authOptions_unset_variables
          [of "\<lambda>opts. opts" "[''AZURE_AD_TENANT_ID'' \<mapsto> ''t-1'']"]
  by (simp add: or_else_def)

section \<open>The profile view\<close>

text \<open>
  C4. In every authenticated state, a session that is not \<^verbatim>\<open>null\<close> and a status other than
  \<^verbatim>\<open>loading\<close>, the view is the welcome element around the value of
  \<^verbatim>\<open>session.user?.name\<close>; when that value is a string \<open>n\<close> the text shown is
  \<^verbatim>\<open>Welcome, n!\<close>.
\<close>

theorem UserProfile_welcome:
  assumes "status useSession \<noteq> Loading" and "data useSession = Some sess"
  shows "UserProfile useSession
           = Jsx ''div'' [JsxText ''Welcome, '', JsxExpr (user_name sess), JsxText ''!'']
         \<and> (\<forall>u n. user sess = Some u \<and> name u = Str n \<longrightarrow>
               textContent (UserProfile useSession) = ''Welcome, '' @ n @ ''!'')"
  using assms by (simp add: UserProfile_def user_name_def)

theorem UserProfile_welcome_witness:
  "textContent (UserProfile
      \<lparr>data = Some \<lparr>user = Some \<lparr>id' = Some ''u-42'', name = Str ''Ada''\<rparr>, expires = ''2030''\<rparr>,
       status = Authenticated\<rparr>) = ''Welcome, Ada!''"
  using UserProfile_welcome
    [of "\<lparr>data = Some \<lparr>user = Some \<lparr>id' = Some ''u-42'', name = Str ''Ada''\<rparr>, expires = ''2030''\<rparr>,
          status = Authenticated\<rparr>"
        "\<lparr>user = Some \<lparr>id' = Some ''u-42'', name = Str ''Ada''\<rparr>, expires = ''2030''\<rparr>"]
  by (simp add: user_name_def)

text \<open>
  C10. For every pair of status and session the view is one of three outputs, chosen in
  this order: the loading paragraph exactly when the status is \<^verbatim>\<open>loading\<close>, with or
  without a session; the not-logged-in paragraph exactly when the status is not
  \<^verbatim>\<open>loading\<close> and the session is \<^verbatim>\<open>null\<close>; the welcome element exactly in the remaining
  case. The three conditions exclude one another and cover every pair.
\<close>

theorem UserProfile_three_views:
  "(UserProfile useSession = Jsx ''p'' [JsxText ''Loading...''])
     = (status useSession = Loading)
   \<and> (UserProfile useSession = Jsx ''p'' [JsxText ''You are not logged in.''])
     = (status useSession \<noteq> Loading \<and> data useSession = None)
   \<and> (\<exists>sess. data useSession = Some sess
          \<and> UserProfile useSession
              = Jsx ''div'' [JsxText ''Welcome, '', JsxExpr (user_name sess), JsxText ''!''])
     = (status useSession \<noteq> Loading \<and> data useSession \<noteq> None)"
  by (auto simp add: UserProfile_def split: option.splits)

text \<open>A loading state that still holds a session, and a settled state without one.\<close>

theorem UserProfile_three_views_witness:
  "UserProfile \<lparr>data = Some \<lparr>user = Some \<lparr>id' = None, name = Str ''Ada''\<rparr>, expires = ''2030''\<rparr>,
                status = Loading\<rparr> = Jsx ''p'' [JsxText ''Loading...'']
   \<and> UserProfile \<lparr>data = (None :: user session option), status = Unauthenticated\<rparr>
       = Jsx ''p'' [JsxText ''You are not logged in.'']"
  using UserProfile_three_views
          [of "\<lparr>data = Some \<lparr>user = Some \<lparr>id' = None, name = Str ''Ada''\<rparr>, expires = ''2030''\<rparr>,
                status = Loading\<rparr>"]
        UserProfile_three_views
          [of "\<lparr>data = (None :: user session option), status = Unauthenticated\<rparr>"]
  by simp

end
